theory Spec2Isabelle
  imports Main
begin

section \<open>Add Geomark URLs: the data the tool works on\<close>

text \<open>
  The development embeds \<^verbatim>\<open>add_geomark_url\<close> of
  \<^verbatim>\<open>tools/Add_Geomark_URLs/ArcGISPro/add_geomark_py3.py\<close>. The function drives three
  collaborators: the GIS toolkit (describe, list and add fields, update cursor), an HTTP
  session and the message log. Their effects are threaded through an explicit state; what
  they answer is given by an environment, so that every theorem holds for whatever the
  toolkit and the web service answer.
\<close>

text \<open>Exceptions that leave \<^verbatim>\<open>add_geomark_url\<close>: the two toolkit calls that are not
  guarded, and Python's error for reading a local variable that was never assigned.\<close>

datatype error = DescribeError | AddFieldError | UnboundLocalError

datatype geometry = Geometry (WKT: string)

text \<open>A feature: the two attributes the cursor is opened on, and every other attribute.
  For a dataset whose schema has no \<^verbatim>\<open>GeomarkURL\<close> field yet, \<open>GeomarkURL\<close> is the
  value the cursor reads once the field has been added.\<close>

record feature =
  GeomarkURL :: "string option"
  SHAPE :: "geometry option"
  attributes :: "(string \<times> string) list"

record field =
  field_name :: string
  field_type :: string
  field_length :: nat

record dataset =
  ListFields :: "field list"
  rows :: "feature list"

text \<open>The values of the request dictionary.\<close>

datatype pyval = PyNone | PyInt int | PyStr string

record request =
  req_url :: string
  data :: "(string \<times> pyval) list"
  timeout :: nat

record response =
  status_code :: int
  url :: string

text \<open>\<^verbatim>\<open>session.post\<close> either raises or returns a response.\<close>

datatype post_outcome = Raised | Responded response

text \<open>One entry of the session's history: the position of the cursor when the request was
  sent, the request, and what came of it.\<close>

type_synonym exchange = "nat \<times> request \<times> post_outcome"

record environment =
  describe_factoryCode :: "error + int"
  addfield_raises :: "error option"
  session_post :: "exchange list \<Rightarrow> request \<Rightarrow> post_outcome"

text \<open>A Python row \<^verbatim>\<open>[GeomarkURL, SHAPE@]\<close>.\<close>

type_synonym row = "string option \<times> geometry option"

text \<open>
  The state: the dataset \<^verbatim>\<open>in_fc\<close> names, the message log, the history of the session,
  the positions \<^verbatim>\<open>cursor.updateRow\<close> was called at, and the locals of the function that
  live across iterations. \<open>r = None\<close> says that \<^verbatim>\<open>r\<close> has not been assigned.
\<close>

record state =
  fc :: dataset
  messages :: "string list"
  exchanges :: "exchange list"
  updates :: "nat list"
  r :: "response option"
  read_count :: nat
  update_count :: nat

section \<open>Formatting\<close>

text \<open>Python's \<^verbatim>\<open>str\<close> of an integer, as the f-strings use it.\<close>

definition digit :: "nat \<Rightarrow> char" where
  "digit n = ''0123456789'' ! n"

fun str_nat :: "nat \<Rightarrow> string" where
  "str_nat n = (if n < 10 then [digit n] else str_nat (n div 10) @ [digit (n mod 10)])"

declare str_nat.simps [simp del]

definition str_int :: "int \<Rightarrow> string" where
  "str_int i = (if i < 0 then CHR ''-'' # str_nat (nat (- i)) else str_nat (nat i))"

text \<open>\<^verbatim>\<open>arcpy.AddMessage\<close>; the time stamp in front of each message is left out.\<close>

definition AddMessage :: "string \<Rightarrow> state \<Rightarrow> state" where
  "AddMessage msg s = s\<lparr>messages := messages s @ [msg]\<rparr>"

section \<open>Field provisioning (lines 45 to 50)\<close>

text \<open>Modelled from the spec: \<^verbatim>\<open>arcpy.management.AddField\<close> is toolkit code; it adds
  one field of the given name, type and length to the schema, or raises.\<close>

definition AddField :: "environment \<Rightarrow> dataset \<Rightarrow> string \<Rightarrow> string \<Rightarrow> nat \<Rightarrow> error + dataset" where
  "AddField e in_table nm ty len =
     (case addfield_raises e of
        Some err \<Rightarrow> Inl err
      | None \<Rightarrow> Inr (in_table\<lparr>ListFields := ListFields in_table @
                 [\<lparr>field_name = nm, field_type = ty, field_length = len\<rparr>]\<rparr>))"

definition provision :: "environment \<Rightarrow> state \<Rightarrow> (error \<times> state) + state" where
  "provision e s =
     (let flist = map field_name (ListFields (fc s)) in
      if ''GeomarkURL'' \<notin> set flist then
        (case AddField e (fc s) ''GeomarkURL'' ''TEXT'' 100 of
           Inl err \<Rightarrow> Inl (err, s)
         | Inr ds \<Rightarrow> Inr (AddMessage ''Added GeomarkURL field to input layer'' (s\<lparr>fc := ds\<rparr>)))
      else Inr (AddMessage ''GeomarkURL field already exists in input layer'' s))"

section \<open>One record (lines 60 to 90)\<close>

text \<open>Line 62: \<^verbatim>\<open>exist_url is None or exist_url in ["", " "]\<close>.\<close>

definition is_blank :: "string option \<Rightarrow> bool" where
  "is_blank exist_url = (exist_url = None \<or> exist_url \<in> set [Some '''', Some '' ''])"

definition post_url :: string where
  "post_url = ''https://apps.gov.bc.ca/pub/geomark/geomarks/new''"

definition payload :: "string \<Rightarrow> int \<Rightarrow> (string \<times> pyval) list" where
  "payload geom_wkt srid =
     [(''bufferSegments'', PyInt 8), (''body'', PyStr geom_wkt), (''bufferMetres'', PyNone),
      (''callback'', PyNone), (''failureRedirectUrl'', PyNone), (''bufferJoin'', PyStr ''ROUND''),
      (''bufferMitreLimit'', PyInt 5), (''bufferCap'', PyStr ''ROUND''), (''redirectUrl'', PyNone),
      (''resultFormat'', PyNone), (''format'', PyStr ''wkt''), (''srid'', PyInt srid),
      (''allowOverlap'', PyStr ''false'')]"

text \<open>\<^verbatim>\<open>cursor.updateRow(row)\<close> with the cursor at position \<open>i\<close>: both attributes of the
  row are written to the record.\<close>

definition updateRow :: "nat \<Rightarrow> row \<Rightarrow> state \<Rightarrow> state" where
  "updateRow i row s =
     s\<lparr>fc := (fc s)\<lparr>rows := (rows (fc s))
                 [i := (rows (fc s) ! i)\<lparr>GeomarkURL := fst row, SHAPE := snd row\<rparr>]\<rparr>,
       updates := updates s @ [i]\<rparr>"

text \<open>Lines 73 to 76: the guarded call. A response is bound to \<^verbatim>\<open>r\<close>; when the call
  raises, the handler sets \<^verbatim>\<open>row[0]\<close> and \<^verbatim>\<open>r\<close> keeps what it had.\<close>

definition try_post :: "environment \<Rightarrow> nat \<Rightarrow> request \<Rightarrow> row \<Rightarrow> state \<Rightarrow> row \<times> state" where
  "try_post e i req row s =
     (let out = session_post e (exchanges s) req;
          s' = s\<lparr>exchanges := exchanges s @ [(i, req, out)]\<rparr>
      in case out of
           Responded resp \<Rightarrow> (row, s'\<lparr>r := Some resp\<rparr>)
         | Raised \<Rightarrow>
             ((Some ''Geomark Web Service request failed - try running the tool again'', snd row), s'))"

text \<open>Lines 77 to 85, which follow the guarded call on both of its paths. The endpoint
  compared with on line 79 is the literal of line 68 again.\<close>

definition check_status :: "row \<Rightarrow> state \<Rightarrow> (error \<times> state) + (row \<times> state)" where
  "check_status row s =
     (case r s of
        None \<Rightarrow> Inl (UnboundLocalError, s)
      | Some resp \<Rightarrow>
          if status_code resp = 200 then
            (let out_url = url resp in
             if out_url = post_url then
               Inr ((Some ''Could not create Geomark URL for this geometry'', snd row), s)
             else Inr ((Some out_url, snd row), s\<lparr>update_count := update_count s + 1\<rparr>))
          else
            Inr ((Some (''Geomark Web Service returned status code '' @ str_int (status_code resp)
                        @ ''; try running the tool again''), snd row), s))"

text \<open>Lines 61 to 86.\<close>

definition process_row :: "environment \<Rightarrow> int \<Rightarrow> nat \<Rightarrow> state \<Rightarrow> (error \<times> state) + state" where
  "process_row e srid i s =
     (let row = (GeomarkURL (rows (fc s) ! i), SHAPE (rows (fc s) ! i));
          exist_url = fst row
      in if is_blank exist_url then
           (case snd row of
              None \<Rightarrow> Inr (updateRow i (Some ''Null geometry'', snd row) s)
            | Some geom \<Rightarrow>
                (let geom_wkt = WKT geom;
                     req = \<lparr>req_url = post_url, data = payload geom_wkt srid, timeout = 5\<rparr>;
                     (row', s') = try_post e i req row s
                 in case check_status row' s' of
                      Inl x \<Rightarrow> Inl x
                    | Inr (row'', s'') \<Rightarrow> Inr (updateRow i row'' s'')))
         else Inr s)"

text \<open>Lines 88 to 90.\<close>

definition progress :: "nat \<Rightarrow> state \<Rightarrow> state" where
  "progress row_total s =
     (if read_count s mod 10 = 0 \<or> read_count s = row_total then
        AddMessage (''Processed '' @ str_int (int (read_count s)) @ '' of ''
                    @ str_int (int row_total) @ '' feature(s) and added Geomark URL to ''
                    @ str_int (int (update_count s)) @ '' feature(s)'') s
      else s)"

definition loop_body :: "environment \<Rightarrow> int \<Rightarrow> nat \<Rightarrow> nat \<Rightarrow> state \<Rightarrow> (error \<times> state) + state" where
  "loop_body e srid row_total i s =
     (case process_row e srid i (s\<lparr>read_count := read_count s + 1\<rparr>) of
        Inl x \<Rightarrow> Inl x
      | Inr s' \<Rightarrow> Inr (progress row_total s'))"

section \<open>The run\<close>

text \<open>The \<^verbatim>\<open>for\<close> loop over the cursor, which yields the records in order; an exception
  ends it, and what was written before stays written.\<close>

fun for_cursor :: "environment \<Rightarrow> int \<Rightarrow> nat \<Rightarrow> nat list \<Rightarrow> state \<Rightarrow> (error \<times> state) + state" where
  "for_cursor e srid row_total [] s = Inr s"
| "for_cursor e srid row_total (i # is) s =
     (case loop_body e srid row_total i s of
        Inl x \<Rightarrow> Inl x
      | Inr s' \<Rightarrow> for_cursor e srid row_total is s')"

definition initial :: "dataset \<Rightarrow> state" where
  "initial in_fc =
     \<lparr>fc = in_fc, messages = [], exchanges = [], updates = [], r = None,
      read_count = 0, update_count = 0\<rparr>"

text \<open>Lines 41 to 57: the spatial reference code, the field, the counters and the session.\<close>

definition start :: "environment \<Rightarrow> dataset \<Rightarrow> (error \<times> state) + (int \<times> nat \<times> state)" where
  "start e in_fc =
     (case describe_factoryCode e of
        Inl err \<Rightarrow> Inl (err, initial in_fc)
      | Inr srid \<Rightarrow>
          (case provision e (AddMessage (''Spatial reference code of input dataset: '' @ str_int srid)
                               (initial in_fc)) of
             Inl x \<Rightarrow> Inl x
           | Inr s \<Rightarrow>
               (let row_total = length (rows (fc s));
                    s = s\<lparr>read_count := 0, update_count := 0\<rparr>
                in Inr (srid, row_total,
                        AddMessage (''Processing '' @ str_int (int row_total)
                                    @ '' feature(s) of input dataset'') s))))"

definition add_geomark_url :: "environment \<Rightarrow> dataset \<Rightarrow> (error \<times> state) + state" where
  "add_geomark_url e in_fc =
     (case start e in_fc of
        Inl x \<Rightarrow> Inl x
      | Inr (srid, row_total, s) \<Rightarrow>
          for_cursor e srid row_total [0..<length (rows (fc s))] s)"

text \<open>The state a run ends in, whether it returned or raised.\<close>

fun final :: "(error \<times> state) + state \<Rightarrow> state" where
  "final (Inl (err, s)) = s"
| "final (Inr s) = s"

section \<open>Stating what happened to one record\<close>

text \<open>What a state says about record \<open>j\<close>.\<close>

definition same_at :: "nat \<Rightarrow> state \<Rightarrow> state \<Rightarrow> bool" where
  "same_at j a b \<longleftrightarrow>
     rows (fc b) ! j = rows (fc a) ! j \<and>
     (j \<in> set (updates b) \<longleftrightarrow> j \<in> set (updates a)) \<and>
     filter (\<lambda>x. fst x = j) (exchanges b) = filter (\<lambda>x. fst x = j) (exchanges a)"

text \<open>The exception a run ends with, if any.\<close>

fun raises :: "(error \<times> state) + state \<Rightarrow> error option" where
  "raises (Inl (err, s)) = Some err"
| "raises (Inr s) = None"

text \<open>An attempt to obtain an outcome for the record at position \<open>i\<close>: a request sent or
  a row written while the cursor stood there.\<close>

definition attempted :: "nat \<Rightarrow> state \<Rightarrow> bool" where
  "attempted i s \<longleftrightarrow> i \<in> set (updates s) \<or> i \<in> set (map fst (exchanges s))"

text \<open>The specification's reading of a blank destination: null, empty, or whitespace only
  (the characters Python's \<^verbatim>\<open>str.isspace\<close> accepts in ASCII).\<close>

definition whitespace :: "char \<Rightarrow> bool" where
  "whitespace c \<longleftrightarrow> c \<in> set [CHR '' '', CHR 0x09, CHR 0x0A, CHR 0x0B, CHR 0x0C, CHR 0x0D]"

definition spec_blank :: "string option \<Rightarrow> bool" where
  "spec_blank v = (case v of None \<Rightarrow> True | Some s \<Rightarrow> list_all whitespace s)"

section \<open>Reading a decimal numeral\<close>

text \<open>
  What a string says as a decimal numeral, written independently of \<open>str_int\<close>: digits only,
  no leading zero except in \<^verbatim>\<open>0\<close> itself, a minus sign in front of a negative number and of
  nothing else. Every integer has exactly one such numeral.
\<close>

definition digit_value :: "char \<Rightarrow> nat option" where
  "digit_value c = map_of (zip ''0123456789'' [0, 1, 2, 3, 4, 5, 6, 7, 8, 9]) c"

fun read_digits :: "nat \<Rightarrow> string \<Rightarrow> nat option" where
  "read_digits acc [] = Some acc"
| "read_digits acc (c # cs) =
     (case digit_value c of None \<Rightarrow> None | Some d \<Rightarrow> read_digits (10 * acc + d) cs)"

definition read_nat :: "string \<Rightarrow> nat option" where
  "read_nat s = (if s = [] \<or> (hd s = CHR ''0'' \<and> tl s \<noteq> []) then None else read_digits 0 s)"

definition read_int :: "string \<Rightarrow> int option" where
  "read_int s =
     (if s \<noteq> [] \<and> hd s = CHR ''-'' then
        (case read_nat (tl s) of
           None \<Rightarrow> None
         | Some n \<Rightarrow> if n = 0 then None else Some (- int n))
      else map_option int (read_nat s))"

section \<open>Sample datasets and services\<close>

definition gm_url :: string where
  "gm_url = ''https://apps.gov.bc.ca/pub/geomark/geomarks/gm-1''"

definition point :: geometry where
  "point = Geometry ''POINT (1 2)''"

text \<open>A service that creates a Geomark for every request.\<close>

definition service_up :: environment where
  "service_up = \<lparr>describe_factoryCode = Inr 3005, addfield_raises = None,
     session_post = (\<lambda>h q. Responded \<lparr>status_code = 200, url = gm_url\<rparr>)\<rparr>"

text \<open>A dataset whose only record already has its URL.\<close>

definition surveyed :: dataset where
  "surveyed = \<lparr>ListFields = [\<lparr>field_name = ''GeomarkURL'', field_type = ''TEXT'', field_length = 100\<rparr>],
     rows = [\<lparr>GeomarkURL = Some gm_url, SHAPE = Some point, attributes = [(''NAME'', ''a'')]\<rparr>]\<rparr>"

text \<open>A service that cannot be reached.\<close>

definition service_down :: environment where
  "service_down = \<lparr>describe_factoryCode = Inr 3005, addfield_raises = None,
     session_post = (\<lambda>h q. Raised)\<rparr>"

text \<open>A service that answers the first request and cannot be reached afterwards.\<close>

definition service_drops :: environment where
  "service_drops = \<lparr>describe_factoryCode = Inr 3005, addfield_raises = None,
     session_post = (\<lambda>h q. if h = [] then Responded \<lparr>status_code = 200, url = gm_url\<rparr> else Raised)\<rparr>"

definition one_point :: dataset where
  "one_point = \<lparr>ListFields = [], rows = [\<lparr>GeomarkURL = None, SHAPE = Some point, attributes = []\<rparr>]\<rparr>"

definition two_points :: dataset where
  "two_points = \<lparr>ListFields = [],
     rows = [\<lparr>GeomarkURL = None, SHAPE = Some point, attributes = []\<rparr>,
             \<lparr>GeomarkURL = Some '' '', SHAPE = Some (Geometry ''POINT (3 4)''), attributes = []\<rparr>]\<rparr>"

text \<open>A record whose destination holds two spaces.\<close>

definition padded :: dataset where
  "padded = \<lparr>ListFields = [\<lparr>field_name = ''GeomarkURL'', field_type = ''TEXT'', field_length = 100\<rparr>],
     rows = [\<lparr>GeomarkURL = Some ''  '', SHAPE = Some point, attributes = []\<rparr>]\<rparr>"

text \<open>A service that fails with status 500.\<close>

definition service_500 :: environment where
  "service_500 = \<lparr>describe_factoryCode = Inr 3005, addfield_raises = None,
     session_post = (\<lambda>h q. Responded \<lparr>status_code = 500, url = post_url\<rparr>)\<rparr>"

text \<open>A service that answers 200 without redirecting.\<close>

definition service_rejects :: environment where
  "service_rejects = \<lparr>describe_factoryCode = Inr 3005, addfield_raises = None,
     session_post = (\<lambda>h q. Responded \<lparr>status_code = 200, url = post_url\<rparr>)\<rparr>"

text \<open>A record with an empty destination and no geometry.\<close>

definition no_shape :: dataset where
  "no_shape = \<lparr>ListFields = [\<lparr>field_name = ''GeomarkURL'', field_type = ''TEXT'', field_length = 100\<rparr>],
     rows = [\<lparr>GeomarkURL = Some '''', SHAPE = None, attributes = []\<rparr>]\<rparr>"

text \<open>The request sent for \<open>point\<close> in a dataset with spatial reference code 3005.\<close>

definition point_request :: request where
  "point_request = \<lparr>req_url = post_url, data = payload ''POINT (1 2)'' 3005, timeout = 5\<rparr>"

text \<open>A record whose destination holds two spaces and that has no geometry.\<close>

definition padded_no_shape :: dataset where
  "padded_no_shape = \<lparr>ListFields = [\<lparr>field_name = ''GeomarkURL'', field_type = ''TEXT'', field_length = 100\<rparr>],
     rows = [\<lparr>GeomarkURL = Some ''  '', SHAPE = None, attributes = []\<rparr>]\<rparr>"

text \<open>A service that answers every request with status 404.\<close>

definition service_404 :: environment where
  "service_404 = \<lparr>describe_factoryCode = Inr 3005, addfield_raises = None,
     session_post = (\<lambda>h q. Responded \<lparr>status_code = 404, url = post_url\<rparr>)\<rparr>"

section \<open>One record: what \<open>process_row\<close> does\<close>

lemmas body_defs = process_row_def try_post_def check_status_def updateRow_def Let_def

lemma progress_fields [simp]:
  "fc (progress t s) = fc s" "exchanges (progress t s) = exchanges s"
  "updates (progress t s) = updates s" "r (progress t s) = r s"
  "read_count (progress t s) = read_count s" "update_count (progress t s) = update_count s"
  by (simp_all add: progress_def AddMessage_def)

lemma final_loop_body:
  "fc (final (loop_body e srid t i s)) = fc (final (process_row e srid i (s\<lparr>read_count := read_count s + 1\<rparr>)))"
  "exchanges (final (loop_body e srid t i s)) = exchanges (final (process_row e srid i (s\<lparr>read_count := read_count s + 1\<rparr>)))"
  "updates (final (loop_body e srid t i s)) = updates (final (process_row e srid i (s\<lparr>read_count := read_count s + 1\<rparr>)))"
  "r (final (loop_body e srid t i s)) = r (final (process_row e srid i (s\<lparr>read_count := read_count s + 1\<rparr>)))"
  "read_count (final (loop_body e srid t i s)) = read_count (final (process_row e srid i (s\<lparr>read_count := read_count s + 1\<rparr>)))"
  "update_count (final (loop_body e srid t i s)) = update_count (final (process_row e srid i (s\<lparr>read_count := read_count s + 1\<rparr>)))"
  by (cases "process_row e srid i (s\<lparr>read_count := read_count s + 1\<rparr>)"; simp add: loop_body_def)+

lemma process_row_ListFields:
  "ListFields (fc (final (process_row e srid i s))) = ListFields (fc s)"
  by (simp add: body_defs split: option.split post_outcome.split)

lemma process_row_length:
  "length (rows (fc (final (process_row e srid i s)))) = length (rows (fc s))"
  by (simp add: body_defs split: option.split post_outcome.split)

lemma process_row_other:
  "j \<noteq> i \<Longrightarrow> rows (fc (final (process_row e srid i s))) ! j = rows (fc s) ! j"
  by (simp add: body_defs split: option.split post_outcome.split)

lemma process_row_read_count:
  "read_count (final (process_row e srid i s)) = read_count s"
  by (simp add: body_defs split: option.split post_outcome.split)

lemma process_row_updates_other:
  "j \<noteq> i \<Longrightarrow> j \<in> set (updates (final (process_row e srid i s))) \<longleftrightarrow> j \<in> set (updates s)"
  by (simp add: body_defs split: option.split post_outcome.split)

lemma process_row_exchanges_other:
  "j \<noteq> i \<Longrightarrow> filter (\<lambda>x. fst x = j) (exchanges (final (process_row e srid i s)))
     = filter (\<lambda>x. fst x = j) (exchanges s)"
  by (simp add: body_defs split: option.split post_outcome.split)

lemma check_status_unbound:
  "r s = None \<Longrightarrow> check_status row s = Inl (UnboundLocalError, s)"
  by (simp add: check_status_def)

lemma check_status_bound:
  assumes "r s = Some resp"
  obtains v c where "check_status row s = Inr ((Some v, snd row), s\<lparr>update_count := c\<rparr>)"
proof (cases "status_code resp = 200")
  case ok: True
  show ?thesis
  proof (cases "url resp = post_url")
    case True
    with assms ok have "check_status row s
        = Inr ((Some ''Could not create Geomark URL for this geometry'', snd row),
               s\<lparr>update_count := update_count s\<rparr>)"
      by (simp add: check_status_def)
    then show ?thesis by (rule that)
  next
    case False
    with assms ok have "check_status row s
        = Inr ((Some (url resp), snd row), s\<lparr>update_count := update_count s + 1\<rparr>)"
      by (simp add: check_status_def)
    then show ?thesis by (rule that)
  qed
next
  case False
  with assms have "check_status row s
      = Inr ((Some (''Geomark Web Service returned status code '' @ str_int (status_code resp)
                    @ ''; try running the tool again''), snd row),
             s\<lparr>update_count := update_count s\<rparr>)"
    by (simp add: check_status_def)
  then show ?thesis by (rule that)
qed

lemma process_row_post:
  assumes "is_blank (GeomarkURL (rows (fc s) ! i))" and "SHAPE (rows (fc s) ! i) = Some geom"
  shows "process_row e srid i s =
     (case try_post e i \<lparr>req_url = post_url, data = payload (WKT geom) srid, timeout = 5\<rparr>
             (GeomarkURL (rows (fc s) ! i), SHAPE (rows (fc s) ! i)) s of
        (row', s') \<Rightarrow> (case check_status row' s' of
                         Inl x \<Rightarrow> Inl x
                       | Inr (row'', s'') \<Rightarrow> Inr (updateRow i row'' s'')))"
  using assms by (simp add: process_row_def)

lemma process_row_effect:
  obtains (skip) "\<not> is_blank (GeomarkURL (rows (fc s) ! i))" "process_row e srid i s = Inr s"
  | (written) v xs \<rho> c where "is_blank (GeomarkURL (rows (fc s) ! i))"
      "process_row e srid i s = Inr (updateRow i (Some v, SHAPE (rows (fc s) ! i))
          (s\<lparr>exchanges := exchanges s @ xs, r := \<rho>, update_count := c\<rparr>))"
      "\<forall>x\<in>set xs. fst x = i"
  | (raised) req where "is_blank (GeomarkURL (rows (fc s) ! i))"
      "process_row e srid i s = Inl (UnboundLocalError, s\<lparr>exchanges := exchanges s @ [(i, req, Raised)]\<rparr>)"
proof (cases "is_blank (GeomarkURL (rows (fc s) ! i))")
  case False
  then show ?thesis using skip by (simp add: process_row_def)
next
  case blank: True
  show ?thesis
  proof (cases "SHAPE (rows (fc s) ! i)")
    case None
    with blank have "process_row e srid i s = Inr (updateRow i (Some ''Null geometry'', SHAPE (rows (fc s) ! i))
          (s\<lparr>exchanges := exchanges s @ [], r := r s, update_count := update_count s\<rparr>))"
      by (simp add: process_row_def)
    then show ?thesis by (rule written [OF blank]) simp
  next
    case (Some geom)
    define req where "req = \<lparr>req_url = post_url, data = payload (WKT geom) srid, timeout = 5\<rparr>"
    note unfold = process_row_post [OF blank Some, of e srid, folded req_def]
    show ?thesis
    proof (cases "session_post e (exchanges s) req")
      case Raised
      define s' where "s' = s\<lparr>exchanges := exchanges s @ [(i, req, Raised)]\<rparr>"
      have tp: "try_post e i req (GeomarkURL (rows (fc s) ! i), SHAPE (rows (fc s) ! i)) s
          = ((Some ''Geomark Web Service request failed - try running the tool again'',
              SHAPE (rows (fc s) ! i)), s')"
        using Raised by (simp add: try_post_def s'_def)
      show ?thesis
      proof (cases "r s")
        case None
        then have "r s' = None" by (simp add: s'_def)
        then have "process_row e srid i s = Inl (UnboundLocalError, s')"
          by (simp add: unfold tp check_status_unbound)
        then show ?thesis unfolding s'_def by (rule raised [OF blank])
      next
        case stale: (Some resp)
        then have "r s' = Some resp" by (simp add: s'_def)
        then obtain v c where "check_status (Some ''Geomark Web Service request failed - try running the tool again'',
              SHAPE (rows (fc s) ! i)) s' = Inr ((Some v, SHAPE (rows (fc s) ! i)), s'\<lparr>update_count := c\<rparr>)"
          using check_status_bound [of s' resp] by (metis snd_conv)
        then have "process_row e srid i s = Inr (updateRow i (Some v, SHAPE (rows (fc s) ! i))
                (s\<lparr>exchanges := exchanges s @ [(i, req, Raised)], r := r s, update_count := c\<rparr>))"
          by (simp add: unfold tp s'_def)
        then show ?thesis by (rule written [OF blank]) simp
      qed
    next
      case (Responded resp)
      define s' where "s' = s\<lparr>exchanges := exchanges s @ [(i, req, Responded resp)], r := Some resp\<rparr>"
      have tp: "try_post e i req (GeomarkURL (rows (fc s) ! i), SHAPE (rows (fc s) ! i)) s
          = ((GeomarkURL (rows (fc s) ! i), SHAPE (rows (fc s) ! i)), s')"
        using Responded by (simp add: try_post_def s'_def)
      have "r s' = Some resp" by (simp add: s'_def)
      then obtain v c where "check_status (GeomarkURL (rows (fc s) ! i),
              SHAPE (rows (fc s) ! i)) s' = Inr ((Some v, SHAPE (rows (fc s) ! i)), s'\<lparr>update_count := c\<rparr>)"
        using check_status_bound [of s' resp] by (metis snd_conv)
      then have "process_row e srid i s = Inr (updateRow i (Some v, SHAPE (rows (fc s) ! i))
                (s\<lparr>exchanges := exchanges s @ [(i, req, Responded resp)], r := Some resp, update_count := c\<rparr>))"
        by (simp add: unfold tp s'_def)
      then show ?thesis by (rule written [OF blank]) simp
    qed
  qed
qed

lemma updateRow_fields [simp]:
  "ListFields (fc (updateRow i row s)) = ListFields (fc s)"
  "length (rows (fc (updateRow i row s))) = length (rows (fc s))"
  "exchanges (updateRow i row s) = exchanges s"
  "updates (updateRow i row s) = updates s @ [i]"
  "r (updateRow i row s) = r s"
  "read_count (updateRow i row s) = read_count s"
  "update_count (updateRow i row s) = update_count s"
  by (simp_all add: updateRow_def)

lemma updateRow_other [simp]:
  "j \<noteq> i \<Longrightarrow> rows (fc (updateRow i row s)) ! j = rows (fc s) ! j"
  by (simp add: updateRow_def)

lemma updateRow_same:
  "i < length (rows (fc s)) \<Longrightarrow>
   rows (fc (updateRow i row s)) ! i = (rows (fc s) ! i)\<lparr>GeomarkURL := fst row, SHAPE := snd row\<rparr>"
  by (simp add: updateRow_def)

lemma updateRow_beyond:
  "\<not> i < length (rows (fc s)) \<Longrightarrow> rows (fc (updateRow i row s)) = rows (fc s)"
  by (simp add: updateRow_def list_update_beyond)

lemma updateRow_frame:
  assumes "snd row = SHAPE (rows (fc s) ! i)"
  shows "SHAPE (rows (fc (updateRow i row s)) ! j) = SHAPE (rows (fc s) ! j)"
    and "attributes (rows (fc (updateRow i row s)) ! j) = attributes (rows (fc s) ! j)"
  using assms
  by (cases "i < length (rows (fc s))"; cases "j = i"; simp add: updateRow_same updateRow_beyond)+

lemma process_row_frame:
  "SHAPE (rows (fc (final (process_row e srid i s))) ! j) = SHAPE (rows (fc s) ! j)"
  "attributes (rows (fc (final (process_row e srid i s))) ! j) = attributes (rows (fc s) ! j)"
  by (cases rule: process_row_effect [of s i e srid]; simp add: updateRow_frame)+

lemma process_row_kept:
  assumes "\<not> is_blank (GeomarkURL (rows (fc s) ! j))"
  shows "rows (fc (final (process_row e srid i s))) ! j = rows (fc s) ! j"
    and "j \<in> set (updates (final (process_row e srid i s))) \<longleftrightarrow> j \<in> set (updates s)"
    and "filter (\<lambda>x. fst x = j) (exchanges (final (process_row e srid i s)))
           = filter (\<lambda>x. fst x = j) (exchanges s)"
  using assms by (cases rule: process_row_effect [of s i e srid]; cases "j = i"; simp; fail)+

lemma body_ListFields:
  "ListFields (fc (final (loop_body e srid t i s))) = ListFields (fc s)"
  by (simp add: final_loop_body process_row_ListFields)

lemma body_length:
  "length (rows (fc (final (loop_body e srid t i s)))) = length (rows (fc s))"
  by (simp add: final_loop_body process_row_length)

lemma body_frame:
  "SHAPE (rows (fc (final (loop_body e srid t i s))) ! j) = SHAPE (rows (fc s) ! j)"
  "attributes (rows (fc (final (loop_body e srid t i s))) ! j) = attributes (rows (fc s) ! j)"
  by (simp_all add: final_loop_body process_row_frame)

lemma body_read_count:
  "read_count (final (loop_body e srid t i s)) = Suc (read_count s)"
  by (simp add: final_loop_body process_row_read_count)

lemma body_other:
  assumes "j \<noteq> i"
  shows "rows (fc (final (loop_body e srid t i s))) ! j = rows (fc s) ! j"
    and "j \<in> set (updates (final (loop_body e srid t i s))) \<longleftrightarrow> j \<in> set (updates s)"
    and "filter (\<lambda>x. fst x = j) (exchanges (final (loop_body e srid t i s)))
           = filter (\<lambda>x. fst x = j) (exchanges s)"
  using assms
  by (simp_all add: final_loop_body process_row_other process_row_updates_other
        process_row_exchanges_other)

lemma body_kept:
  assumes "\<not> is_blank (GeomarkURL (rows (fc s) ! j))"
  shows "rows (fc (final (loop_body e srid t i s))) ! j = rows (fc s) ! j"
    and "j \<in> set (updates (final (loop_body e srid t i s))) \<longleftrightarrow> j \<in> set (updates s)"
    and "filter (\<lambda>x. fst x = j) (exchanges (final (loop_body e srid t i s)))
           = filter (\<lambda>x. fst x = j) (exchanges s)"
  using assms by (simp_all add: final_loop_body process_row_kept)

lemma for_cursor_Inl:
  "loop_body e srid t i s = Inl x \<Longrightarrow> for_cursor e srid t (i # js) s = Inl x"
  by simp

lemma for_cursor_Inr:
  "loop_body e srid t i s = Inr s' \<Longrightarrow> for_cursor e srid t (i # js) s = for_cursor e srid t js s'"
  by simp

lemma for_cursor_preserves:
  assumes step: "\<And>i s. i \<in> set js \<Longrightarrow> R s (final (loop_body e srid t i s))"
    and refl: "\<And>s. R s s"
    and trans: "\<And>a b c. R a b \<Longrightarrow> R b c \<Longrightarrow> R a c"
  shows "R s (final (for_cursor e srid t js s))"
  using step
proof (induction js arbitrary: s)
  case Nil
  show ?case by (simp add: refl)
next
  case (Cons i js)
  have here: "R s (final (loop_body e srid t i s))"
    by (rule Cons.prems) simp
  show ?case
  proof (cases "loop_body e srid t i s")
    case (Inl x)
    with here show ?thesis by (simp add: for_cursor_Inl)
  next
    case (Inr s')
    have "R s' (final (for_cursor e srid t js s'))"
      by (rule Cons.IH) (simp add: Cons.prems)
    moreover from here Inr have "R s s'" by simp
    ultimately have "R s (final (for_cursor e srid t js s'))"
      by (rule trans [rotated])
    with Inr show ?thesis by (simp add: for_cursor_Inr)
  qed
qed

lemma loop_ListFields:
  "ListFields (fc (final (for_cursor e srid t js s))) = ListFields (fc s)"
  by (rule for_cursor_preserves [where R = "\<lambda>a b. ListFields (fc b) = ListFields (fc a)"])
     (simp_all add: body_ListFields)

lemma loop_length:
  "length (rows (fc (final (for_cursor e srid t js s)))) = length (rows (fc s))"
  by (rule for_cursor_preserves [where R = "\<lambda>a b. length (rows (fc b)) = length (rows (fc a))"])
     (simp_all add: body_length)

lemma loop_SHAPE:
  "SHAPE (rows (fc (final (for_cursor e srid t js s))) ! j) = SHAPE (rows (fc s) ! j)"
  by (rule for_cursor_preserves [where R = "\<lambda>a b. SHAPE (rows (fc b) ! j) = SHAPE (rows (fc a) ! j)"])
     (simp_all add: body_frame)

lemma loop_attributes:
  "attributes (rows (fc (final (for_cursor e srid t js s))) ! j) = attributes (rows (fc s) ! j)"
  by (rule for_cursor_preserves
        [where R = "\<lambda>a b. attributes (rows (fc b) ! j) = attributes (rows (fc a) ! j)"])
     (simp_all add: body_frame)

lemma loop_read_count_mono:
  "read_count s \<le> read_count (final (for_cursor e srid t js s))"
  by (rule for_cursor_preserves [where R = "\<lambda>a b. read_count a \<le> read_count b"])
     (simp_all add: body_read_count)

lemma same_at_refl: "same_at j a a"
  by (simp add: same_at_def)

lemma same_at_trans: "same_at j a b \<Longrightarrow> same_at j b c \<Longrightarrow> same_at j a c"
  by (simp add: same_at_def)

lemma loop_untouched:
  assumes "j \<notin> set js"
  shows "same_at j s (final (for_cursor e srid t js s))"
proof (rule for_cursor_preserves [where R = "same_at j"])
  fix i a assume "i \<in> set js"
  with assms have "j \<noteq> i" by auto
  then show "same_at j a (final (loop_body e srid t i a))"
    by (simp add: same_at_def body_other)
qed (auto intro: same_at_refl same_at_trans)

lemma loop_kept:
  assumes "\<not> is_blank (GeomarkURL (rows (fc s) ! j))"
  shows "same_at j s (final (for_cursor e srid t js s))"
proof -
  have "\<not> is_blank (GeomarkURL (rows (fc s) ! j)) \<longrightarrow> same_at j s (final (for_cursor e srid t js s))"
  proof (rule for_cursor_preserves
      [where R = "\<lambda>a b. \<not> is_blank (GeomarkURL (rows (fc a) ! j)) \<longrightarrow> same_at j a b"])
    fix i a
    show "\<not> is_blank (GeomarkURL (rows (fc a) ! j)) \<longrightarrow> same_at j a (final (loop_body e srid t i a))"
      by (simp add: same_at_def body_kept)
  next
    fix a show "\<not> is_blank (GeomarkURL (rows (fc a) ! j)) \<longrightarrow> same_at j a a"
      by (simp add: same_at_refl)
  next
    fix a b c
    assume "\<not> is_blank (GeomarkURL (rows (fc a) ! j)) \<longrightarrow> same_at j a b"
      and "\<not> is_blank (GeomarkURL (rows (fc b) ! j)) \<longrightarrow> same_at j b c"
    then show "\<not> is_blank (GeomarkURL (rows (fc a) ! j)) \<longrightarrow> same_at j a c"
      by (auto simp: same_at_def)
  qed
  with assms show ?thesis by simp
qed

lemma provision_cases:
  obtains (present) "''GeomarkURL'' \<in> set (map field_name (ListFields (fc s)))"
      "provision e s = Inr (AddMessage ''GeomarkURL field already exists in input layer'' s)"
  | (added) "''GeomarkURL'' \<notin> set (map field_name (ListFields (fc s)))" "addfield_raises e = None"
      "provision e s = Inr (AddMessage ''Added GeomarkURL field to input layer''
          (s\<lparr>fc := (fc s)\<lparr>ListFields := ListFields (fc s) @
             [\<lparr>field_name = ''GeomarkURL'', field_type = ''TEXT'', field_length = 100\<rparr>]\<rparr>\<rparr>))"
  | (failed) err where "''GeomarkURL'' \<notin> set (map field_name (ListFields (fc s)))"
      "addfield_raises e = Some err" "provision e s = Inl (err, s)"
proof (cases "''GeomarkURL'' \<in> set (map field_name (ListFields (fc s)))")
  case True
  then show ?thesis using present by (simp add: provision_def)
next
  case absent: False
  show ?thesis
  proof (cases "addfield_raises e")
    case None
    with absent show ?thesis using added by (simp add: provision_def AddField_def)
  next
    case (Some err)
    with absent show ?thesis using failed by (simp add: provision_def AddField_def)
  qed
qed

lemma AddMessage_fields [simp]:
  "fc (AddMessage m s) = fc s" "exchanges (AddMessage m s) = exchanges s"
  "updates (AddMessage m s) = updates s" "r (AddMessage m s) = r s"
  "read_count (AddMessage m s) = read_count s" "update_count (AddMessage m s) = update_count s"
  by (simp_all add: AddMessage_def)

lemma initial_fields [simp]:
  "fc (initial ds) = ds" "exchanges (initial ds) = []" "updates (initial ds) = []"
  "r (initial ds) = None" "read_count (initial ds) = 0" "update_count (initial ds) = 0"
  by (simp_all add: initial_def)

lemma start_Inl:
  assumes "start e ds = Inl (err, s)"
  shows "fc s = ds" "exchanges s = []" "updates s = []" "read_count s = 0"
proof -
  have "fc s = ds \<and> exchanges s = [] \<and> updates s = [] \<and> read_count s = 0"
  proof (cases "describe_factoryCode e")
    case (Inl a)
    with assms show ?thesis by (auto simp: start_def)
  next
    case (Inr srid)
    define s1 where "s1 = AddMessage (''Spatial reference code of input dataset: '' @ str_int srid) (initial ds)"
    show ?thesis
    proof (cases rule: provision_cases [of s1 e])
      case present
      with assms Inr show ?thesis by (simp add: start_def s1_def Let_def)
    next
      case added
      with assms Inr show ?thesis by (simp add: start_def s1_def Let_def)
    next
      case (failed err')
      with assms Inr have "s = s1" by (simp add: start_def s1_def Let_def)
      then show ?thesis by (simp add: s1_def)
    qed
  qed
  then show "fc s = ds" "exchanges s = []" "updates s = []" "read_count s = 0" by simp_all
qed

lemma start_Inr:
  assumes "start e ds = Inr (srid, t, s)"
  shows "rows (fc s) = rows ds" "t = length (rows ds)" "exchanges s = []" "updates s = []"
    "r s = None" "read_count s = 0" "update_count s = 0" "describe_factoryCode e = Inr srid"
    "ListFields (fc s) =
      (if ''GeomarkURL'' \<in> set (map field_name (ListFields ds)) then ListFields ds
       else ListFields ds @ [\<lparr>field_name = ''GeomarkURL'', field_type = ''TEXT'', field_length = 100\<rparr>])"
    "''GeomarkURL'' \<notin> set (map field_name (ListFields ds)) \<Longrightarrow> addfield_raises e = None"
proof -
  from assms obtain srid' where d: "describe_factoryCode e = Inr srid'"
    by (cases "describe_factoryCode e") (auto simp: start_def)
  define s1 where "s1 = AddMessage (''Spatial reference code of input dataset: '' @ str_int srid') (initial ds)"
  have all: "rows (fc s) = rows ds \<and> t = length (rows ds) \<and> exchanges s = [] \<and> updates s = [] \<and>
    r s = None \<and> read_count s = 0 \<and> update_count s = 0 \<and> srid' = srid \<and>
    ListFields (fc s) =
      (if ''GeomarkURL'' \<in> set (map field_name (ListFields ds)) then ListFields ds
       else ListFields ds @ [\<lparr>field_name = ''GeomarkURL'', field_type = ''TEXT'', field_length = 100\<rparr>]) \<and>
    (''GeomarkURL'' \<notin> set (map field_name (ListFields ds)) \<longrightarrow> addfield_raises e = None)"
  proof (cases rule: provision_cases [of s1 e])
    case present
    with assms d show ?thesis by (auto simp: start_def s1_def Let_def)
  next
    case added
    with assms d show ?thesis by (auto simp: start_def s1_def Let_def)
  next
    case (failed err')
    with assms d show ?thesis by (simp add: start_def s1_def Let_def)
  qed
  with d show "rows (fc s) = rows ds" "t = length (rows ds)" "exchanges s = []" "updates s = []"
    "r s = None" "read_count s = 0" "update_count s = 0" "describe_factoryCode e = Inr srid"
    "ListFields (fc s) =
      (if ''GeomarkURL'' \<in> set (map field_name (ListFields ds)) then ListFields ds
       else ListFields ds @ [\<lparr>field_name = ''GeomarkURL'', field_type = ''TEXT'', field_length = 100\<rparr>])"
    "''GeomarkURL'' \<notin> set (map field_name (ListFields ds)) \<Longrightarrow> addfield_raises e = None"
    by simp_all
qed

lemma run_cases:
  obtains (aborted) err s where "start e ds = Inl (err, s)" "add_geomark_url e ds = Inl (err, s)"
  | (looped) srid s where "start e ds = Inr (srid, length (rows ds), s)"
      "add_geomark_url e ds = for_cursor e srid (length (rows ds)) [0..<length (rows ds)] s"
proof (cases "start e ds")
  case (Inl x)
  then show ?thesis using aborted [of "fst x" "snd x"] by (simp add: add_geomark_url_def)
next
  case (Inr y)
  obtain srid t s where y: "y = (srid, t, s)" by (cases y)
  with Inr have st: "start e ds = Inr (srid, t, s)" by simp
  note facts = start_Inr [OF st]
  from st facts(1,2) show ?thesis using looped [of srid s] by (simp add: add_geomark_url_def)
qed

lemmas run_defs = add_geomark_url_def start_def provision_def AddField_def initial_def
  AddMessage_def loop_body_def process_row_def is_blank_def try_post_def check_status_def
  updateRow_def progress_def Let_def

section \<open>Provisioning in the run\<close>

lemma start_fails:
  assumes "start e ds = Inl (err, s)"
  shows "isl (describe_factoryCode e) \<or>
         (''GeomarkURL'' \<notin> set (map field_name (ListFields ds)) \<and> addfield_raises e \<noteq> None)"
proof (cases "describe_factoryCode e")
  case (Inl a)
  then show ?thesis by simp
next
  case (Inr srid)
  define s1 where "s1 = AddMessage (''Spatial reference code of input dataset: '' @ str_int srid) (initial ds)"
  show ?thesis
  proof (cases rule: provision_cases [of s1 e])
    case present
    with assms Inr show ?thesis by (simp add: start_def s1_def Let_def)
  next
    case added
    with assms Inr show ?thesis by (simp add: start_def s1_def Let_def)
  next
    case (failed err')
    then show ?thesis by (simp add: s1_def)
  qed
qed

lemma run_ListFields:
  "ListFields (fc (final (add_geomark_url e ds))) =
     (if ''GeomarkURL'' \<in> set (map field_name (ListFields ds)) \<or> isl (describe_factoryCode e)
         \<or> addfield_raises e \<noteq> None
      then ListFields ds
      else ListFields ds @ [\<lparr>field_name = ''GeomarkURL'', field_type = ''TEXT'', field_length = 100\<rparr>])"
proof (cases rule: run_cases [of e ds])
  case (aborted err s)
  from start_fails [OF aborted(1)] aborted show ?thesis by (auto simp: start_Inl)
next
  case (looped srid s)
  note st = start_Inr [OF looped(1)]
  from st(8) have "\<not> isl (describe_factoryCode e)" by simp
  with looped(2) st(9,10) show ?thesis by (auto simp: loop_ListFields)
qed

section \<open>The cursor at one record\<close>

lemma for_cursor_append:
  "for_cursor e srid t (xs @ ys) s =
     (case for_cursor e srid t xs s of Inl x \<Rightarrow> Inl x | Inr s' \<Rightarrow> for_cursor e srid t ys s')"
  by (induction xs arbitrary: s) (simp_all split: sum.split)

lemma loop_read_count_le:
  "read_count (final (for_cursor e srid t js s)) \<le> read_count s + length js"
proof (induction js arbitrary: s)
  case Nil
  show ?case by simp
next
  case (Cons i js)
  have here: "read_count (final (loop_body e srid t i s)) = Suc (read_count s)"
    by (rule body_read_count)
  show ?case
  proof (cases "loop_body e srid t i s")
    case (Inl x)
    with here show ?thesis by (simp add: for_cursor_Inl)
  next
    case (Inr s')
    with here have "read_count s' = Suc (read_count s)" by simp
    with Cons.IH [of s'] Inr show ?thesis by (simp add: for_cursor_Inr)
  qed
qed

lemma loop_read_count_Inr:
  "for_cursor e srid t js s = Inr s' \<Longrightarrow> read_count s' = read_count s + length js"
proof (induction js arbitrary: s)
  case Nil
  then show ?case by simp
next
  case (Cons i js)
  from Cons.prems obtain s1 where b: "loop_body e srid t i s = Inr s1"
    by (cases "loop_body e srid t i s") simp_all
  with body_read_count [of e srid t i s] have "read_count s1 = Suc (read_count s)" by simp
  moreover from Cons.prems b have "for_cursor e srid t js s1 = Inr s'" by simp
  then have "read_count s' = read_count s1 + length js" by (rule Cons.IH)
  ultimately show ?case by simp
qed

lemma record_view:
  assumes "i < n"
  obtains (unread) "read_count (final (for_cursor e srid t [0..<n] s)) \<le> read_count s + i"
      "same_at i s (final (for_cursor e srid t [0..<n] s))"
  | (read) s1 where "for_cursor e srid t [0..<i] s = Inr s1" "same_at i s s1"
      "same_at i (final (loop_body e srid t i s1)) (final (for_cursor e srid t [0..<n] s))"
      "read_count s + i < read_count (final (for_cursor e srid t [0..<n] s))"
proof -
  from assms have split: "[0..<n] = [0..<i] @ i # [Suc i..<n]"
    by (metis less_imp_le_nat upt_add_eq_append upt_conv_Cons le0 le_add_diff_inverse plus_nat.add_0)
  have before: "same_at i s (final (for_cursor e srid t [0..<i] s))"
    by (rule loop_untouched) simp
  show ?thesis
  proof (cases "for_cursor e srid t [0..<i] s")
    case (Inl x)
    then have whole: "for_cursor e srid t [0..<n] s = Inl x"
      by (simp add: split for_cursor_append)
    have "read_count (final (for_cursor e srid t [0..<i] s)) \<le> read_count s + i"
      using loop_read_count_le [of e srid t "[0..<i]" s] by simp
    with before Inl whole show ?thesis using unread by simp
  next
    case (Inr s1)
    then have whole: "for_cursor e srid t [0..<n] s = for_cursor e srid t (i # [Suc i..<n]) s1"
      by (simp add: split for_cursor_append)
    from before Inr have b: "same_at i s s1" by simp
    from Inr have rc1: "read_count s1 = read_count s + i"
      using loop_read_count_Inr [of e srid t "[0..<i]" s s1] by simp
    have here: "read_count (final (loop_body e srid t i s1)) = Suc (read_count s1)"
      by (rule body_read_count)
    show ?thesis
    proof (cases "loop_body e srid t i s1")
      case (Inl x)
      with whole have eq: "final (for_cursor e srid t [0..<n] s) = final (loop_body e srid t i s1)"
        by (simp add: for_cursor_Inl)
      show ?thesis
        using read [OF Inr b] here rc1 by (simp add: eq same_at_refl)
    next
      case step: (Inr s2)
      with whole have eq: "final (for_cursor e srid t [0..<n] s)
          = final (for_cursor e srid t [Suc i..<n] s2)"
        by (simp add: for_cursor_Inr)
      have "same_at i s2 (final (for_cursor e srid t [Suc i..<n] s2))"
        by (rule loop_untouched) simp
      moreover have "read_count s2 \<le> read_count (final (for_cursor e srid t [Suc i..<n] s2))"
        by (rule loop_read_count_mono)
      moreover from here step have "read_count s2 = Suc (read_count s1)" by simp
      ultimately show ?thesis
        using read [OF Inr b] step rc1 by (simp add: eq)
    qed
  qed
qed

lemma attempted_same_at:
  assumes "same_at j a b"
  shows "attempted j b \<longleftrightarrow> attempted j a"
proof -
  have conv: "\<And>xs :: exchange list. j \<in> fst ` set xs \<longleftrightarrow> filter (\<lambda>x. fst x = j) xs \<noteq> []"
    by (force simp: filter_empty_conv)
  from assms show ?thesis by (simp add: attempted_def conv same_at_def)
qed

lemma run_record:
  obtains (unread) "read_count (final (add_geomark_url e in_fc)) \<le> i"
      "rows (fc (final (add_geomark_url e in_fc))) ! i = rows in_fc ! i"
      "i \<notin> set (updates (final (add_geomark_url e in_fc)))"
      "filter (\<lambda>x. fst x = i) (exchanges (final (add_geomark_url e in_fc))) = []"
  | (read) srid s0 s1 where "start e in_fc = Inr (srid, length (rows in_fc), s0)"
      "for_cursor e srid (length (rows in_fc)) [0..<i] s0 = Inr s1"
      "i < length (rows (fc s1))"
      "rows (fc s1) ! i = rows in_fc ! i"
      "i \<notin> set (updates s1)"
      "filter (\<lambda>x. fst x = i) (exchanges s1) = []"
      "same_at i (final (loop_body e srid (length (rows in_fc)) i s1)) (final (add_geomark_url e in_fc))"
      "i < read_count (final (add_geomark_url e in_fc))"
proof (cases rule: run_cases [of e in_fc])
  case (aborted err s)
  then show ?thesis using unread by (simp add: start_Inl)
next
  case (looped srid s0)
  note st = start_Inr [OF looped(1)]
  let ?n = "length (rows in_fc)"
  let ?F = "final (for_cursor e srid ?n [0..<?n] s0)"
  show ?thesis
  proof (cases "i < ?n")
    case False
    have "same_at i s0 ?F" by (rule loop_untouched) (use False in simp)
    moreover have "read_count ?F \<le> read_count s0 + ?n"
      using loop_read_count_le [of e srid ?n "[0..<?n]" s0] by simp
    ultimately show ?thesis using unread False st looped(2) by (simp add: same_at_def)
  next
    case True
    show ?thesis
      using True
    proof (cases rule: record_view [where i = i and n = "?n" and e = e and srid = srid and t = "?n" and s = s0])
      case unread
      then show ?thesis using that(1) st looped(2) by (simp add: same_at_def)
    next
      case (read s1)
      have "length (rows (fc (final (for_cursor e srid ?n [0..<i] s0)))) = length (rows (fc s0))"
        by (rule loop_length)
      with read(1) True st(1) have len: "i < length (rows (fc s1))" by simp
      from read(2) st have "rows (fc s1) ! i = rows in_fc ! i" "i \<notin> set (updates s1)"
        "filter (\<lambda>x. fst x = i) (exchanges s1) = []"
        by (simp_all add: same_at_def)
      with read looped len st show ?thesis using that(2) [of srid s0 s1] by simp
    qed
  qed
qed

lemma process_row_exchanges:
  "exchanges (final (process_row e srid i s)) =
     (if is_blank (GeomarkURL (rows (fc s) ! i)) then
        (case SHAPE (rows (fc s) ! i) of
           None \<Rightarrow> exchanges s
         | Some geom \<Rightarrow> exchanges s @
             [(i, \<lparr>req_url = post_url, data = payload (WKT geom) srid, timeout = 5\<rparr>,
               session_post e (exchanges s)
                 \<lparr>req_url = post_url, data = payload (WKT geom) srid, timeout = 5\<rparr>)])
      else exchanges s)"
  by (simp add: body_defs split: option.split post_outcome.split)

lemma body_attempted:
  "attempted i (final (loop_body e srid t i s)) \<longleftrightarrow>
     attempted i s \<or> is_blank (GeomarkURL (rows (fc s) ! i))"
proof (cases rule: process_row_effect [of "s\<lparr>read_count := read_count s + 1\<rparr>" i e srid])
  case skip
  then show ?thesis by (simp add: attempted_def final_loop_body)
next
  case (written v xs \<rho> c)
  then show ?thesis by (simp add: attempted_def final_loop_body)
next
  case (raised req)
  then show ?thesis by (simp add: attempted_def final_loop_body)
qed

section \<open>One record: the outcome written\<close>

lemma body_null:
  assumes "is_blank (GeomarkURL (rows (fc s) ! i))" and "SHAPE (rows (fc s) ! i) = None"
    and "i < length (rows (fc s))"
  shows "GeomarkURL (rows (fc (final (loop_body e srid t i s))) ! i) = Some ''Null geometry''"
    and "exchanges (final (loop_body e srid t i s)) = exchanges s"
  using assms by (simp_all add: final_loop_body process_row_def updateRow_same)

lemma process_row_responded:
  assumes "is_blank (GeomarkURL (rows (fc s) ! i))" and "SHAPE (rows (fc s) ! i) = Some geom"
    and "session_post e (exchanges s)
           \<lparr>req_url = post_url, data = payload (WKT geom) srid, timeout = 5\<rparr> = Responded resp"
  shows "process_row e srid i s =
     Inr (updateRow i
       (Some (if status_code resp = 200
              then (if url resp = post_url then ''Could not create Geomark URL for this geometry''
                    else url resp)
              else ''Geomark Web Service returned status code '' @ str_int (status_code resp)
                   @ ''; try running the tool again''), Some geom)
       (s\<lparr>exchanges := exchanges s @
              [(i, \<lparr>req_url = post_url, data = payload (WKT geom) srid, timeout = 5\<rparr>, Responded resp)],
          r := Some resp,
          update_count := (if status_code resp = 200 \<and> url resp \<noteq> post_url
                           then update_count s + 1 else update_count s)\<rparr>))"
  using assms by (simp add: process_row_post try_post_def check_status_def)

lemma body_exchange_made:
  assumes "(i, req, out) \<in> set (exchanges (final (loop_body e srid t i s)))"
    and "filter (\<lambda>x. fst x = i) (exchanges s) = []"
  obtains geom where "is_blank (GeomarkURL (rows (fc s) ! i))" "SHAPE (rows (fc s) ! i) = Some geom"
    "req = \<lparr>req_url = post_url, data = payload (WKT geom) srid, timeout = 5\<rparr>"
    "session_post e (exchanges s) req = out"
proof -
  from assms(2) have none: "(i, req, out) \<notin> set (exchanges s)"
    by (auto simp: filter_empty_conv)
  from assms(1) have mem: "(i, req, out) \<in> set (exchanges (final (process_row e srid i
      (s\<lparr>read_count := read_count s + 1\<rparr>))))"
    by (simp add: final_loop_body)
  show ?thesis
  proof (cases "is_blank (GeomarkURL (rows (fc s) ! i))")
    case False
    with mem none show ?thesis by (simp add: process_row_exchanges)
  next
    case blank: True
    show ?thesis
    proof (cases "SHAPE (rows (fc s) ! i)")
      case None
      with mem none blank show ?thesis by (simp add: process_row_exchanges)
    next
      case (Some geom)
      with mem none blank show ?thesis using that [of geom] by (simp add: process_row_exchanges)
    qed
  qed
qed

lemma body_responded:
  assumes "(i, req, Responded resp) \<in> set (exchanges (final (loop_body e srid t i s)))"
    and "filter (\<lambda>x. fst x = i) (exchanges s) = []"
    and "i < length (rows (fc s))"
  shows "GeomarkURL (rows (fc (final (loop_body e srid t i s))) ! i) =
           Some (if status_code resp = 200
                 then (if url resp = post_url then ''Could not create Geomark URL for this geometry''
                       else url resp)
                 else ''Geomark Web Service returned status code '' @ str_int (status_code resp)
                      @ ''; try running the tool again'')"
    and "\<exists>s'. loop_body e srid t i s = Inr s' \<and>
           update_count s' = (if status_code resp = 200 \<and> url resp \<noteq> post_url
                              then update_count s + 1 else update_count s)"
proof -
  from assms(1,2) obtain geom where g: "is_blank (GeomarkURL (rows (fc s) ! i))"
      "SHAPE (rows (fc s) ! i) = Some geom"
      "req = \<lparr>req_url = post_url, data = payload (WKT geom) srid, timeout = 5\<rparr>"
      "session_post e (exchanges s) req = Responded resp"
    by (rule body_exchange_made)
  let ?s = "s\<lparr>read_count := Suc (read_count s)\<rparr>"
  have pr: "process_row e srid i ?s = Inr (updateRow i
       (Some (if status_code resp = 200
              then (if url resp = post_url then ''Could not create Geomark URL for this geometry''
                    else url resp)
              else ''Geomark Web Service returned status code '' @ str_int (status_code resp)
                   @ ''; try running the tool again''), Some geom)
       (?s\<lparr>exchanges := exchanges ?s @
              [(i, \<lparr>req_url = post_url, data = payload (WKT geom) srid, timeout = 5\<rparr>, Responded resp)],
          r := Some resp,
          update_count := (if status_code resp = 200 \<and> url resp \<noteq> post_url
                           then update_count ?s + 1 else update_count ?s)\<rparr>))"
    by (rule process_row_responded) (use g in simp_all)
  show "GeomarkURL (rows (fc (final (loop_body e srid t i s))) ! i) =
           Some (if status_code resp = 200
                 then (if url resp = post_url then ''Could not create Geomark URL for this geometry''
                       else url resp)
                 else ''Geomark Web Service returned status code '' @ str_int (status_code resp)
                      @ ''; try running the tool again'')"
    using assms(3) by (simp add: final_loop_body pr updateRow_same)
  show "\<exists>s'. loop_body e srid t i s = Inr s' \<and>
           update_count s' = (if status_code resp = 200 \<and> url resp \<noteq> post_url
                              then update_count s + 1 else update_count s)"
    by (simp add: loop_body_def pr)
qed

section \<open>Every record read ends with a destination that is not blank\<close>

lemma process_row_stale:
  assumes "is_blank (GeomarkURL (rows (fc s) ! i))" and "SHAPE (rows (fc s) ! i) = Some geom"
    and "session_post e (exchanges s)
           \<lparr>req_url = post_url, data = payload (WKT geom) srid, timeout = 5\<rparr> = Raised"
    and "r s = Some resp"
  shows "process_row e srid i s =
     Inr (updateRow i
       (Some (if status_code resp = 200
              then (if url resp = post_url then ''Could not create Geomark URL for this geometry''
                    else url resp)
              else ''Geomark Web Service returned status code '' @ str_int (status_code resp)
                   @ ''; try running the tool again''), Some geom)
       (s\<lparr>exchanges := exchanges s @
              [(i, \<lparr>req_url = post_url, data = payload (WKT geom) srid, timeout = 5\<rparr>, Raised)],
          update_count := (if status_code resp = 200 \<and> url resp \<noteq> post_url
                           then update_count s + 1 else update_count s)\<rparr>))"
  using assms by (simp add: process_row_post try_post_def check_status_def)

lemma process_row_unbound:
  assumes "is_blank (GeomarkURL (rows (fc s) ! i))" and "SHAPE (rows (fc s) ! i) = Some geom"
    and "session_post e (exchanges s)
           \<lparr>req_url = post_url, data = payload (WKT geom) srid, timeout = 5\<rparr> = Raised"
    and "r s = None"
  shows "process_row e srid i s =
     Inl (UnboundLocalError, s\<lparr>exchanges := exchanges s @
              [(i, \<lparr>req_url = post_url, data = payload (WKT geom) srid, timeout = 5\<rparr>, Raised)]\<rparr>)"
  using assms by (simp add: process_row_post try_post_def check_status_def)

lemma outcome_text_not_blank:
  assumes "\<not> is_blank (Some (url resp))"
  shows "\<not> is_blank (Some (if status_code resp = 200
              then (if url resp = post_url then ''Could not create Geomark URL for this geometry''
                    else url resp)
              else ''Geomark Web Service returned status code '' @ str_int (status_code resp)
                   @ ''; try running the tool again''))"
  using assms by (simp add: is_blank_def)

lemma process_row_fills:
  assumes service: "\<forall>h q resp. session_post e h q = Responded resp \<longrightarrow> \<not> is_blank (Some (url resp))"
    and bound: "\<forall>resp. r s = Some resp \<longrightarrow> \<not> is_blank (Some (url resp))"
    and ok: "process_row e srid i s = Inr s'"
    and len: "i < length (rows (fc s))"
  shows "\<not> is_blank (GeomarkURL (rows (fc s') ! i))"
    and "\<forall>resp. r s' = Some resp \<longrightarrow> \<not> is_blank (Some (url resp))"
proof -
  have "\<not> is_blank (GeomarkURL (rows (fc s') ! i)) \<and>
        (\<forall>resp. r s' = Some resp \<longrightarrow> \<not> is_blank (Some (url resp)))"
  proof (cases "is_blank (GeomarkURL (rows (fc s) ! i))")
    case False
    with ok have "s' = s" by (simp add: process_row_def)
    with False bound show ?thesis by simp
  next
    case blank: True
    show ?thesis
    proof (cases "SHAPE (rows (fc s) ! i)")
      case None
      with blank ok have "s' = updateRow i (Some ''Null geometry'', None) s"
        by (simp add: process_row_def)
      with bound len show ?thesis by (simp add: updateRow_same is_blank_def)
    next
      case (Some geom)
      let ?req = "\<lparr>req_url = post_url, data = payload (WKT geom) srid, timeout = 5\<rparr>"
      show ?thesis
      proof (cases "session_post e (exchanges s) ?req")
        case Raised
        show ?thesis
        proof (cases "r s")
          case None
          with blank Some Raised ok show ?thesis by (simp add: process_row_unbound)
        next
          case stale: (Some resp)
          with bound have nb: "\<not> is_blank (Some (url resp))" by simp
          from ok have "s' = final (process_row e srid i s)" by simp
          then show ?thesis
            using len bound stale outcome_text_not_blank [OF nb]
            by (simp add: process_row_stale [OF blank Some Raised stale] updateRow_same)
        qed
      next
        case (Responded resp)
        with service have nb: "\<not> is_blank (Some (url resp))" by blast
        from ok have "s' = final (process_row e srid i s)" by simp
        then show ?thesis
          using len nb outcome_text_not_blank [OF nb]
          by (simp add: process_row_responded [OF blank Some Responded] updateRow_same)
      qed
    qed
  qed
  then show "\<not> is_blank (GeomarkURL (rows (fc s') ! i))"
    and "\<forall>resp. r s' = Some resp \<longrightarrow> \<not> is_blank (Some (url resp))"
    by simp_all
qed

lemma body_fills:
  assumes service: "\<forall>h q resp. session_post e h q = Responded resp \<longrightarrow> \<not> is_blank (Some (url resp))"
    and bound: "\<forall>resp. r s = Some resp \<longrightarrow> \<not> is_blank (Some (url resp))"
    and ok: "loop_body e srid t i s = Inr s'"
    and len: "i < length (rows (fc s))"
  shows "\<not> is_blank (GeomarkURL (rows (fc s') ! i))"
    and "\<forall>resp. r s' = Some resp \<longrightarrow> \<not> is_blank (Some (url resp))"
proof -
  let ?s = "s\<lparr>read_count := read_count s + 1\<rparr>"
  from ok obtain s1 where p: "process_row e srid i ?s = Inr s1" and s': "s' = progress t s1"
    by (cases "process_row e srid i ?s") (auto simp: loop_body_def)
  from bound have b: "\<forall>resp. r ?s = Some resp \<longrightarrow> \<not> is_blank (Some (url resp))" by simp
  from len have l: "i < length (rows (fc ?s))" by simp
  note f = process_row_fills [OF service b p l]
  from f(1) s' show "\<not> is_blank (GeomarkURL (rows (fc s') ! i))" by simp
  from f(2) s' show "\<forall>resp. r s' = Some resp \<longrightarrow> \<not> is_blank (Some (url resp))" by simp
qed

lemma loop_fills:
  assumes service: "\<forall>h q resp. session_post e h q = Responded resp \<longrightarrow> \<not> is_blank (Some (url resp))"
  shows "(\<forall>resp. r s = Some resp \<longrightarrow> \<not> is_blank (Some (url resp))) \<Longrightarrow>
         for_cursor e srid t js s = Inr s' \<Longrightarrow> \<forall>j\<in>set js. j < length (rows (fc s)) \<Longrightarrow>
         \<forall>j\<in>set js. \<not> is_blank (GeomarkURL (rows (fc s') ! j))"
proof (induction js arbitrary: s)
  case Nil
  show ?case by simp
next
  case (Cons i js)
  from Cons.prems(2) obtain s1 where b: "loop_body e srid t i s = Inr s1"
    by (cases "loop_body e srid t i s") simp_all
  with Cons.prems(2) have rest: "for_cursor e srid t js s1 = Inr s'" by simp
  from Cons.prems(3) have len: "i < length (rows (fc s))" by simp
  note f = body_fills [OF service Cons.prems(1) b len]
  have "length (rows (fc (final (loop_body e srid t i s)))) = length (rows (fc s))"
    by (rule body_length)
  with b have l1: "length (rows (fc s1)) = length (rows (fc s))" by simp
  have tail: "\<forall>j\<in>set js. \<not> is_blank (GeomarkURL (rows (fc s') ! j))"
    using f(2) rest
  proof (rule Cons.IH)
    show "\<forall>j\<in>set js. j < length (rows (fc s1))" using Cons.prems(3) l1 by simp
  qed
  have "same_at i s1 (final (for_cursor e srid t js s1))"
    using f(1) by (rule loop_kept)
  with rest f(1) have "\<not> is_blank (GeomarkURL (rows (fc s') ! i))"
    by (simp add: same_at_def)
  with tail show ?case by simp
qed

lemma run_fills:
  assumes service: "\<forall>h q resp. session_post e h q = Responded resp \<longrightarrow> \<not> is_blank (Some (url resp))"
    and ok: "raises (add_geomark_url e in_fc) = None"
  shows "\<forall>j<length (rows (fc (final (add_geomark_url e in_fc)))).
           \<not> is_blank (GeomarkURL (rows (fc (final (add_geomark_url e in_fc))) ! j))"
proof (cases rule: run_cases [of e in_fc])
  case (aborted err s)
  with ok show ?thesis by simp
next
  case (looped srid s0)
  note st = start_Inr [OF looped(1)]
  let ?n = "length (rows in_fc)"
  from ok looped(2) obtain s' where fin: "for_cursor e srid ?n [0..<?n] s0 = Inr s'"
    by (cases "for_cursor e srid ?n [0..<?n] s0") auto
  have "length (rows (fc (final (for_cursor e srid ?n [0..<?n] s0)))) = length (rows (fc s0))"
    by (rule loop_length)
  with fin st(1) have len: "length (rows (fc s')) = ?n" by simp
  have "\<forall>j\<in>set [0..<?n]. \<not> is_blank (GeomarkURL (rows (fc s') ! j))"
    using service _ fin
  proof (rule loop_fills)
    show "\<forall>resp. r s0 = Some resp \<longrightarrow> \<not> is_blank (Some (url resp))" using st(5) by simp
    show "\<forall>j\<in>set [0..<?n]. j < length (rows (fc s0))" using st(1) by simp
  qed
  with looped(2) fin len show ?thesis by simp
qed

lemma run_nothing_to_do:
  assumes "\<forall>j<length (rows ds). \<not> is_blank (GeomarkURL (rows ds ! j))"
  shows "exchanges (final (add_geomark_url e ds)) = []"
proof (rule ccontr)
  assume "exchanges (final (add_geomark_url e ds)) \<noteq> []"
  then obtain x where x: "x \<in> set (exchanges (final (add_geomark_url e ds)))"
    by (cases "exchanges (final (add_geomark_url e ds))") auto
  define i where "i = fst x"
  from x have ne: "filter (\<lambda>y. fst y = i) (exchanges (final (add_geomark_url e ds))) \<noteq> []"
    by (auto simp: filter_empty_conv i_def)
  show False
  proof (cases rule: run_record [of e ds i])
    case unread
    with ne show ?thesis by simp
  next
    case (read srid s0 s1)
    note st = start_Inr [OF read(1)]
    have "length (rows (fc (final (for_cursor e srid (length (rows ds)) [0..<i] s0))))
        = length (rows (fc s0))"
      by (rule loop_length)
    with read(2,3) st(1) have "i < length (rows ds)" by simp
    with assms read(4) have "\<not> is_blank (GeomarkURL (rows (fc s1) ! i))" by simp
    then have "filter (\<lambda>x. fst x = i) (exchanges (final (loop_body e srid (length (rows ds)) i s1)))
        = filter (\<lambda>x. fst x = i) (exchanges s1)"
      by (rule body_kept)
    with read(6,7) ne show ?thesis by (simp add: same_at_def)
  qed
qed

section \<open>The decimal numeral \<open>str_int\<close> writes\<close>

lemma below_ten:
  "d < 10 \<Longrightarrow> d = 0 \<or> d = 1 \<or> d = 2 \<or> d = 3 \<or> d = 4 \<or> d = 5 \<or> d = 6 \<or> d = 7 \<or> d = 8 \<or> d = (9::nat)"
  by arith

lemma digit_value_digit:
  assumes "d < 10"
  shows "digit_value (digit d) = Some d"
  using below_ten [OF assms] by (auto simp: digit_def digit_value_def)

lemma digit_value_Some:
  assumes "digit_value c = Some d"
  shows "d < 10" and "digit d = c"
  using assms by (auto simp: digit_def digit_value_def split: if_splits)

lemma digit_zero:
  assumes "d < 10" and "digit d = CHR ''0''"
  shows "d = 0"
  using below_ten [OF assms(1)] assms(2) by (auto simp: digit_def)

lemma digit_not_minus:
  assumes "d < 10"
  shows "digit d \<noteq> CHR ''-''"
  using below_ten [OF assms] by (auto simp: digit_def)

lemma read_digits_snoc:
  "read_digits acc (xs @ [c]) =
     (case read_digits acc xs of
        None \<Rightarrow> None
      | Some v \<Rightarrow> (case digit_value c of None \<Rightarrow> None | Some d \<Rightarrow> Some (10 * v + d)))"
  by (induction xs arbitrary: acc) (simp_all split: option.split)

lemma read_digits_str_nat:
  "read_digits 0 (str_nat n) = Some n"
proof (induction n rule: str_nat.induct)
  case (1 n)
  show ?case
  proof (cases "n < 10")
    case True
    then show ?thesis by (simp add: str_nat.simps [of n] digit_value_digit)
  next
    case False
    with "1" have "read_digits 0 (str_nat (n div 10)) = Some (n div 10)" by simp
    with False show ?thesis
      by (simp add: str_nat.simps [of n] read_digits_snoc digit_value_digit)
  qed
qed

lemma str_nat_hd:
  "str_nat n \<noteq> [] \<and> (\<exists>k<10. hd (str_nat n) = digit k \<and> (k = 0 \<longrightarrow> n = 0))"
proof (induction n rule: str_nat.induct)
  case (1 n)
  show ?case
  proof (cases "n < 10")
    case True
    then show ?thesis by (auto simp: str_nat.simps [of n])
  next
    case False
    with "1" obtain k where k: "str_nat (n div 10) \<noteq> []" "k < 10"
        "hd (str_nat (n div 10)) = digit k" "k = 0 \<longrightarrow> n div 10 = 0"
      by blast
    from False have "n div 10 \<noteq> 0" by simp
    with k have "k \<noteq> 0" by blast
    with k False show ?thesis by (auto simp: str_nat.simps [of n])
  qed
qed

lemma str_nat_zero: "str_nat 0 = ''0''"
  by (simp add: str_nat.simps [of 0] digit_def)

lemma read_nat_str_nat:
  "read_nat (str_nat n) = Some n"
proof -
  from str_nat_hd [of n] obtain k where k: "str_nat n \<noteq> []" "k < 10"
      "hd (str_nat n) = digit k" "k = 0 \<longrightarrow> n = 0"
    by blast
  have "\<not> (hd (str_nat n) = CHR ''0'' \<and> tl (str_nat n) \<noteq> [])"
  proof
    assume a: "hd (str_nat n) = CHR ''0'' \<and> tl (str_nat n) \<noteq> []"
    with k have "k = 0" by (simp add: digit_zero)
    with k have "n = 0" by simp
    with a show False by (simp add: str_nat_zero)
  qed
  with k(1) show ?thesis by (simp add: read_nat_def read_digits_str_nat)
qed

lemma read_int_str_int:
  "read_int (str_int i) = Some i"
proof (cases "i < 0")
  case True
  then have "nat (- i) \<noteq> 0" by simp
  with True show ?thesis by (simp add: read_int_def str_int_def read_nat_str_nat)
next
  case False
  from str_nat_hd [of "nat i"] obtain k where k: "str_nat (nat i) \<noteq> []" "k < 10"
      "hd (str_nat (nat i)) = digit k"
    by blast
  then have "hd (str_nat (nat i)) \<noteq> CHR ''-''" by (simp add: digit_not_minus)
  with False show ?thesis by (simp add: read_int_def str_int_def read_nat_str_nat)
qed

lemma read_digits_canonical:
  "s \<noteq> [] \<Longrightarrow> hd s \<noteq> CHR ''0'' \<or> tl s = [] \<Longrightarrow> read_digits 0 s = Some v \<Longrightarrow> s = str_nat v"
proof (induction s arbitrary: v rule: rev_induct)
  case Nil
  then show ?case by simp
next
  case (snoc c t)
  from snoc.prems(3) obtain vt d where vt: "read_digits 0 t = Some vt"
      and d: "digit_value c = Some d" and v: "v = 10 * vt + d"
    by (auto simp: read_digits_snoc split: option.splits)
  note dd = digit_value_Some [OF d]
  show ?case
  proof (cases "t = []")
    case True
    with vt v dd show ?thesis by (simp add: str_nat.simps [of d])
  next
    case False
    with snoc.prems(2) have h: "hd t \<noteq> CHR ''0''" by (cases t) auto
    with False vt have t: "t = str_nat vt" by (intro snoc.IH) simp_all
    have "vt \<noteq> 0"
    proof
      assume "vt = 0"
      with t have "t = ''0''" by (simp add: str_nat_zero)
      with h show False by simp
    qed
    with v dd have "\<not> v < 10" "v div 10 = vt" "v mod 10 = d" by simp_all
    with t dd show ?thesis by (simp add: str_nat.simps [of v])
  qed
qed

lemma read_int_only_str_int:
  assumes "read_int s = Some i"
  shows "s = str_int i"
proof (cases "s \<noteq> [] \<and> hd s = CHR ''-''")
  case True
  with assms obtain n where n: "read_nat (tl s) = Some n" "n \<noteq> 0" "i = - int n"
    by (auto simp: read_int_def split: option.splits if_splits)
  from n(1) have "tl s = str_nat n"
    by (auto simp: read_nat_def split: if_splits intro: read_digits_canonical)
  moreover from True have "s = CHR ''-'' # tl s" by (cases s) auto
  ultimately show ?thesis using n by (simp add: str_int_def)
next
  case False
  with assms obtain n where n: "read_nat s = Some n" "i = int n"
    by (auto simp: read_int_def)
  from n(1) have "s = str_nat n"
    by (auto simp: read_nat_def split: if_splits intro: read_digits_canonical)
  with n show ?thesis by (simp add: str_int_def)
qed

lemma decimal_numeral:
  "read_int s = Some i \<longleftrightarrow> s = str_int i"
  using read_int_only_str_int read_int_str_int by blast

section \<open>The claims\<close>

text \<open>
  C4. A record whose destination field holds a value other than null, the empty string and
  one space before the run (so every value that is not blank) has the same value, and is the
  same record, after the run, and \<^verbatim>\<open>cursor.updateRow\<close> is never called at its position;
  this holds whether the run returns or raises.
\<close>

theorem skip_keeps_value:
  assumes "\<not> is_blank (GeomarkURL (rows in_fc ! i))"
  shows "rows (fc (final (add_geomark_url e in_fc))) ! i = rows in_fc ! i \<and>
         i \<notin> set (updates (final (add_geomark_url e in_fc)))"
proof (cases rule: run_cases [of e in_fc])
  case (aborted err s)
  then show ?thesis by (simp add: start_Inl)
next
  case (looped srid s)
  note st = start_Inr [OF looped(1)]
  from assms st(1) have "\<not> is_blank (GeomarkURL (rows (fc s) ! i))" by simp
  then have "same_at i s (final (for_cursor e srid (length (rows in_fc)) [0..<length (rows in_fc)] s))"
    by (rule loop_kept)
  with looped(2) st show ?thesis by (simp add: same_at_def)
qed

theorem skip_keeps_value_witness:
  "\<not> is_blank (GeomarkURL (rows surveyed ! 0)) \<and>
   rows (fc (final (add_geomark_url service_up surveyed))) ! 0 = rows surveyed ! 0 \<and>
   0 \<notin> set (updates (final (add_geomark_url service_up surveyed)))"
proof -
  have h: "\<not> is_blank (GeomarkURL (rows surveyed ! 0))"
    by (simp add: surveyed_def is_blank_def gm_url_def)
  show ?thesis using h skip_keeps_value [OF h, of service_up] by simp
qed

text \<open>
  C10. The run writes the \<^verbatim>\<open>GeomarkURL\<close> attribute only: record by record, the geometry
  and the other attributes after the run are those before it, for records that were skipped
  and for records that were updated, whether the run returns or raises.
\<close>

theorem only_GeomarkURL_written:
  "map SHAPE (rows (fc (final (add_geomark_url e in_fc)))) = map SHAPE (rows in_fc) \<and>
   map attributes (rows (fc (final (add_geomark_url e in_fc)))) = map attributes (rows in_fc)"
proof (cases rule: run_cases [of e in_fc])
  case (aborted err s)
  then show ?thesis by (simp add: start_Inl)
next
  case (looped srid s)
  note st = start_Inr [OF looped(1)]
  let ?F = "final (for_cursor e srid (length (rows in_fc)) [0..<length (rows in_fc)] s)"
  have len: "length (rows (fc ?F)) = length (rows in_fc)"
    using st(1) by (simp add: loop_length)
  have "map SHAPE (rows (fc ?F)) = map SHAPE (rows in_fc)"
    using len st(1) by (intro nth_equalityI) (simp_all add: loop_SHAPE)
  moreover have "map attributes (rows (fc ?F)) = map attributes (rows in_fc)"
    using len st(1) by (intro nth_equalityI) (simp_all add: loop_attributes)
  ultimately show ?thesis using looped(2) by simp
qed

text \<open>
  C8. Field provisioning is idempotent. When the schema already has a field named
  \<^verbatim>\<open>GeomarkURL\<close>, the run leaves the schema as it is. When it has none and the toolkit
  calls succeed, the schema after the run is the old one followed by exactly one field
  \<^verbatim>\<open>GeomarkURL\<close> of type \<^verbatim>\<open>TEXT\<close> and length 100. A second run on the result leaves
  the schema of the first.
\<close>

theorem field_provisioning_idempotent:
  "(''GeomarkURL'' \<in> set (map field_name (ListFields in_fc)) \<longrightarrow>
      ListFields (fc (final (add_geomark_url e in_fc))) = ListFields in_fc) \<and>
   (''GeomarkURL'' \<notin> set (map field_name (ListFields in_fc)) \<and>
    describe_factoryCode e = Inr srid \<and> addfield_raises e = None \<longrightarrow>
      ListFields (fc (final (add_geomark_url e in_fc))) =
        ListFields in_fc @ [\<lparr>field_name = ''GeomarkURL'', field_type = ''TEXT'', field_length = 100\<rparr>]) \<and>
   (describe_factoryCode e = Inr srid \<and> addfield_raises e = None \<longrightarrow>
      ListFields (fc (final (add_geomark_url e' (fc (final (add_geomark_url e in_fc)))))) =
        ListFields (fc (final (add_geomark_url e in_fc))))"
  by (auto simp: run_ListFields)

theorem field_provisioning_idempotent_witness:
  "''GeomarkURL'' \<in> set (map field_name (ListFields surveyed)) \<and>
   ListFields (fc (final (add_geomark_url service_up surveyed))) = ListFields surveyed \<and>
   ''GeomarkURL'' \<notin> set (map field_name (ListFields one_point)) \<and>
   describe_factoryCode service_up = Inr 3005 \<and> addfield_raises service_up = None \<and>
   ListFields (fc (final (add_geomark_url service_up one_point))) =
     ListFields one_point @ [\<lparr>field_name = ''GeomarkURL'', field_type = ''TEXT'', field_length = 100\<rparr>] \<and>
   ListFields (fc (final (add_geomark_url service_down (fc (final (add_geomark_url service_up one_point)))))) =
     ListFields (fc (final (add_geomark_url service_up one_point)))"
  using field_provisioning_idempotent [of surveyed service_up 3005 service_down]
    field_provisioning_idempotent [of one_point service_up 3005 service_down]
  by (simp add: surveyed_def one_point_def service_up_def)

text \<open>
  C1, evaluated. The claim: after a transport failure the destination is the failure message
  and the response is not inspected. In the code lines 77 to 85 follow the handler. Here the
  first request is answered and the second raises: the second record ends with the URL that was
  created for the first one, and is counted as a success.
\<close>

theorem transport_failure_takes_earlier_response:
  "GeomarkURL (rows (fc (final (add_geomark_url service_drops two_points))) ! 1) = Some gm_url \<and>
   map (\<lambda>x. snd (snd x)) (exchanges (final (add_geomark_url service_drops two_points)))
     = [Responded \<lparr>status_code = 200, url = gm_url\<rparr>, Raised] \<and>
   update_count (final (add_geomark_url service_drops two_points)) = 2"
  by (simp add: run_defs service_drops_def two_points_def point_def gm_url_def post_url_def upt_rec)

text \<open>
  C2, evaluated. The claim: a transport failure is recorded in the record and no exception
  reaches the caller. Here the only request raises while \<^verbatim>\<open>r\<close> has never been assigned:
  the run ends with \<^verbatim>\<open>UnboundLocalError\<close>, and the record is not written.
\<close>

theorem transport_failure_aborts_run:
  "raises (add_geomark_url service_down one_point) = Some UnboundLocalError \<and>
   GeomarkURL (rows (fc (final (add_geomark_url service_down one_point))) ! 0) = None \<and>
   updates (final (add_geomark_url service_down one_point)) = []"
  by (simp add: run_defs service_down_def one_point_def point_def upt_rec)

text \<open>
  C3, as stated, fails: a destination of two spaces is whitespace only, the cursor reads the
  record, and no outcome is attempted for it.
\<close>

theorem whitespace_value_is_skipped:
  "spec_blank (GeomarkURL (rows padded ! 0)) \<and>
   read_count (final (add_geomark_url service_up padded)) = 1 \<and>
   \<not> attempted 0 (final (add_geomark_url service_up padded))"
  by (simp add: run_defs service_up_def padded_def point_def spec_blank_def whitespace_def
      attempted_def upt_rec)

text \<open>
  C3, amended. An outcome is attempted for a record if and only if the cursor reads the record
  and its destination is null, the empty string or exactly one space; every other value,
  longer runs of whitespace included, is skipped.
\<close>

theorem attempt_iff_blank:
  "attempted i (final (add_geomark_url e in_fc)) \<longleftrightarrow>
     i < read_count (final (add_geomark_url e in_fc)) \<and> is_blank (GeomarkURL (rows in_fc ! i))"
proof (cases rule: run_record [of e in_fc i])
  case unread
  have "i \<notin> set (map fst (exchanges (final (add_geomark_url e in_fc))))"
    using unread(4) by (auto simp: filter_empty_conv)
  with unread show ?thesis by (simp add: attempted_def)
next
  case (read srid s0 s1)
  have "\<not> attempted i s1"
    using read(5,6) by (auto simp: attempted_def filter_empty_conv)
  with read show ?thesis
    by (simp add: attempted_same_at [OF read(7)] body_attempted)
qed

theorem attempt_iff_blank_witness:
  "attempted 0 (final (add_geomark_url service_up one_point)) \<and>
   \<not> attempted 0 (final (add_geomark_url service_up surveyed))"
  using attempt_iff_blank [of 0 service_up one_point] attempt_iff_blank [of 0 service_up surveyed]
  by (simp add: run_defs service_up_def one_point_def surveyed_def point_def gm_url_def post_url_def
      upt_rec)

text \<open>
  C5, as stated, fails: a destination of two spaces is whitespace only and the geometry is
  null; the run returns, the cursor reads the record, and the destination stays as it was.
\<close>

theorem whitespace_null_geometry_kept:
  "spec_blank (GeomarkURL (rows padded_no_shape ! 0)) \<and>
   SHAPE (rows padded_no_shape ! 0) = None \<and>
   raises (add_geomark_url service_up padded_no_shape) = None \<and>
   read_count (final (add_geomark_url service_up padded_no_shape)) = 1 \<and>
   GeomarkURL (rows (fc (final (add_geomark_url service_up padded_no_shape))) ! 0) = Some ''  '' \<and>
   GeomarkURL (rows (fc (final (add_geomark_url service_up padded_no_shape))) ! 0)
     \<noteq> Some ''Null geometry''"
  by (simp add: run_defs service_up_def padded_no_shape_def spec_blank_def whitespace_def upt_rec)

text \<open>
  C5, amended. A record the cursor reads whose destination is null, the empty string or exactly
  one space and whose geometry is null ends the run with the destination
  \<^verbatim>\<open>Null geometry\<close>, and no request is sent for it.
\<close>

theorem null_geometry_marked:
  assumes "i < read_count (final (add_geomark_url e in_fc))"
    and "is_blank (GeomarkURL (rows in_fc ! i))"
    and "SHAPE (rows in_fc ! i) = None"
  shows "GeomarkURL (rows (fc (final (add_geomark_url e in_fc))) ! i) = Some ''Null geometry'' \<and>
         i \<notin> set (map fst (exchanges (final (add_geomark_url e in_fc))))"
proof (cases rule: run_record [of e in_fc i])
  case unread
  with assms(1) show ?thesis by simp
next
  case (read srid s0 s1)
  let ?b = "final (loop_body e srid (length (rows in_fc)) i s1)"
  from assms(2,3) read(4) have here: "is_blank (GeomarkURL (rows (fc s1) ! i))"
      "SHAPE (rows (fc s1) ! i) = None"
    by simp_all
  have "GeomarkURL (rows (fc ?b) ! i) = Some ''Null geometry''"
    using here read(3) by (rule body_null)
  moreover have "exchanges ?b = exchanges s1"
    using here read(3) by (rule body_null)
  ultimately have "GeomarkURL (rows (fc (final (add_geomark_url e in_fc))) ! i) = Some ''Null geometry''"
    and "filter (\<lambda>x. fst x = i) (exchanges (final (add_geomark_url e in_fc))) = []"
    using read(6,7) by (simp_all add: same_at_def)
  then show ?thesis by (auto simp: filter_empty_conv)
qed

theorem null_geometry_marked_witness:
  "0 < read_count (final (add_geomark_url service_up no_shape)) \<and>
   is_blank (GeomarkURL (rows no_shape ! 0)) \<and> SHAPE (rows no_shape ! 0) = None \<and>
   GeomarkURL (rows (fc (final (add_geomark_url service_up no_shape))) ! 0) = Some ''Null geometry'' \<and>
   0 \<notin> set (map fst (exchanges (final (add_geomark_url service_up no_shape))))"
proof -
  have h1: "0 < read_count (final (add_geomark_url service_up no_shape))"
    by (simp add: run_defs service_up_def no_shape_def upt_rec)
  have h2: "is_blank (GeomarkURL (rows no_shape ! 0))"
    by (simp add: no_shape_def is_blank_def)
  have h3: "SHAPE (rows no_shape ! 0) = None"
    by (simp add: no_shape_def)
  show ?thesis using null_geometry_marked [OF h1 h2 h3] h1 h2 h3 by blast
qed

text \<open>
  C6. A record whose request was answered with status 200 ends the run with the marker
  \<^verbatim>\<open>Could not create Geomark URL for this geometry\<close> when the resolved URL is the request
  endpoint, and with the resolved URL itself otherwise; in the second case the iteration for
  that record takes \<^verbatim>\<open>update_count\<close> up by one, in the first it leaves it as it is.
\<close>

theorem ok_status_outcome:
  assumes "(i, req, Responded resp) \<in> set (exchanges (final (add_geomark_url e in_fc)))"
    and "status_code resp = 200"
  shows "GeomarkURL (rows (fc (final (add_geomark_url e in_fc))) ! i) =
           Some (if url resp = post_url then ''Could not create Geomark URL for this geometry''
                 else url resp) \<and>
         (\<exists>srid s0 s1 s2.
            start e in_fc = Inr (srid, length (rows in_fc), s0) \<and>
            for_cursor e srid (length (rows in_fc)) [0..<i] s0 = Inr s1 \<and>
            loop_body e srid (length (rows in_fc)) i s1 = Inr s2 \<and>
            update_count s2 = (if url resp = post_url then update_count s1 else update_count s1 + 1))"
proof (cases rule: run_record [of e in_fc i])
  case unread
  with assms(1) show ?thesis by (auto simp: filter_empty_conv)
next
  case (read srid s0 s1)
  let ?b = "final (loop_body e srid (length (rows in_fc)) i s1)"
  from assms(1) have "(i, req, Responded resp) \<in> set (filter (\<lambda>x. fst x = i)
      (exchanges (final (add_geomark_url e in_fc))))"
    by simp
  with read(7) have mem: "(i, req, Responded resp) \<in> set (exchanges ?b)"
    by (simp add: same_at_def)
  have "GeomarkURL (rows (fc ?b) ! i) =
           Some (if status_code resp = 200
                 then (if url resp = post_url then ''Could not create Geomark URL for this geometry''
                       else url resp)
                 else ''Geomark Web Service returned status code '' @ str_int (status_code resp)
                      @ ''; try running the tool again'')"
    using mem read(6,3) by (rule body_responded)
  with assms(2) read(7) have dest: "GeomarkURL (rows (fc (final (add_geomark_url e in_fc))) ! i) =
           Some (if url resp = post_url then ''Could not create Geomark URL for this geometry''
                 else url resp)"
    by (simp add: same_at_def)
  have "\<exists>s'. loop_body e srid (length (rows in_fc)) i s1 = Inr s' \<and>
           update_count s' = (if status_code resp = 200 \<and> url resp \<noteq> post_url
                              then update_count s1 + 1 else update_count s1)"
    using mem read(6,3) by (rule body_responded)
  then obtain s2 where "loop_body e srid (length (rows in_fc)) i s1 = Inr s2"
    and "update_count s2 = (if url resp = post_url then update_count s1 else update_count s1 + 1)"
    using assms(2) by auto
  with read(1,2) dest show ?thesis by blast
qed

theorem ok_status_outcome_witness:
  "(0, point_request, Responded \<lparr>status_code = 200, url = gm_url\<rparr>)
     \<in> set (exchanges (final (add_geomark_url service_up one_point))) \<and>
   GeomarkURL (rows (fc (final (add_geomark_url service_up one_point))) ! 0) = Some gm_url \<and>
   (0, point_request, Responded \<lparr>status_code = 200, url = post_url\<rparr>)
     \<in> set (exchanges (final (add_geomark_url service_rejects one_point))) \<and>
   GeomarkURL (rows (fc (final (add_geomark_url service_rejects one_point))) ! 0) =
     Some ''Could not create Geomark URL for this geometry''"
proof -
  have h1: "(0, point_request, Responded \<lparr>status_code = 200, url = gm_url\<rparr>)
     \<in> set (exchanges (final (add_geomark_url service_up one_point)))"
    by (simp add: run_defs service_up_def one_point_def point_def point_request_def upt_rec)
  have h2: "(0, point_request, Responded \<lparr>status_code = 200, url = post_url\<rparr>)
     \<in> set (exchanges (final (add_geomark_url service_rejects one_point)))"
    by (simp add: run_defs service_rejects_def one_point_def point_def point_request_def upt_rec)
  have ne: "gm_url \<noteq> post_url"
    by (simp add: gm_url_def post_url_def)
  from ok_status_outcome [OF h1] ok_status_outcome [OF h2] h1 h2 ne show ?thesis by simp
qed

text \<open>
  C7. A record whose request was answered with a status other than 200 ends the run with the
  destination \<^verbatim>\<open>Geomark Web Service returned status code {status}; try running the tool again\<close>,
  where the text in place of \<^verbatim>\<open>{status}\<close> is the decimal numeral of the status code and
  no other string is: status 500 gives the text with \<^verbatim>\<open>500\<close>, status 404 the text with
  \<^verbatim>\<open>404\<close>.
\<close>

theorem unexpected_status_marked:
  assumes "(i, req, Responded resp) \<in> set (exchanges (final (add_geomark_url e in_fc)))"
    and "status_code resp \<noteq> 200"
  shows "GeomarkURL (rows (fc (final (add_geomark_url e in_fc))) ! i) =
           Some (''Geomark Web Service returned status code '' @ str_int (status_code resp)
                 @ ''; try running the tool again'') \<and>
         (\<forall>ds. read_int ds = Some (status_code resp) \<longleftrightarrow> ds = str_int (status_code resp))"
proof (cases rule: run_record [of e in_fc i])
  case unread
  with assms(1) show ?thesis by (auto simp: filter_empty_conv)
next
  case (read srid s0 s1)
  let ?b = "final (loop_body e srid (length (rows in_fc)) i s1)"
  from assms(1) have "(i, req, Responded resp) \<in> set (filter (\<lambda>x. fst x = i)
      (exchanges (final (add_geomark_url e in_fc))))"
    by simp
  with read(7) have mem: "(i, req, Responded resp) \<in> set (exchanges ?b)"
    by (simp add: same_at_def)
  have "GeomarkURL (rows (fc ?b) ! i) =
           Some (if status_code resp = 200
                 then (if url resp = post_url then ''Could not create Geomark URL for this geometry''
                       else url resp)
                 else ''Geomark Web Service returned status code '' @ str_int (status_code resp)
                      @ ''; try running the tool again'')"
    using mem read(6,3) by (rule body_responded)
  with assms(2) read(7) have "GeomarkURL (rows (fc (final (add_geomark_url e in_fc))) ! i) =
           Some (''Geomark Web Service returned status code '' @ str_int (status_code resp)
                 @ ''; try running the tool again'')"
    by (simp add: same_at_def)
  then show ?thesis by (simp add: decimal_numeral)
qed

theorem unexpected_status_marked_witness:
  "(0, point_request, Responded \<lparr>status_code = 500, url = post_url\<rparr>)
     \<in> set (exchanges (final (add_geomark_url service_500 one_point))) \<and>
   GeomarkURL (rows (fc (final (add_geomark_url service_500 one_point))) ! 0) =
     Some ''Geomark Web Service returned status code 500; try running the tool again'' \<and>
   (0, point_request, Responded \<lparr>status_code = 404, url = post_url\<rparr>)
     \<in> set (exchanges (final (add_geomark_url service_404 one_point))) \<and>
   GeomarkURL (rows (fc (final (add_geomark_url service_404 one_point))) ! 0) =
     Some ''Geomark Web Service returned status code 404; try running the tool again'' \<and>
   read_int ''500'' = Some 500 \<and> read_int ''404'' = Some 404"
proof -
  have h: "(0, point_request, Responded \<lparr>status_code = 500, url = post_url\<rparr>)
     \<in> set (exchanges (final (add_geomark_url service_500 one_point)))"
    by (simp add: run_defs service_500_def one_point_def point_def point_request_def upt_rec)
  have h': "(0, point_request, Responded \<lparr>status_code = 404, url = post_url\<rparr>)
     \<in> set (exchanges (final (add_geomark_url service_404 one_point)))"
    by (simp add: run_defs service_404_def one_point_def point_def point_request_def upt_rec)
  have s: "str_int 500 = ''500''" "str_int 404 = ''404''"
    by (simp_all add: str_int_def str_nat.simps digit_def)
  from unexpected_status_marked [OF h] unexpected_status_marked [OF h'] h h' s
  show ?thesis by simp
qed

text \<open>
  C9. After a first run that returns, every record's destination is a value the blank test of
  line 62 rejects, so a second run on the resulting dataset sends no request, whatever the
  toolkit and the service would answer then. A resolved URL of a response is taken to be a
  URL, so neither empty nor a single space.
\<close>

theorem second_run_sends_nothing:
  assumes "raises (add_geomark_url e in_fc) = None"
    and "\<forall>h q resp. session_post e h q = Responded resp \<longrightarrow> \<not> is_blank (Some (url resp))"
  shows "(\<forall>j<length (rows (fc (final (add_geomark_url e in_fc)))).
            \<not> is_blank (GeomarkURL (rows (fc (final (add_geomark_url e in_fc))) ! j))) \<and>
         exchanges (final (add_geomark_url e' (fc (final (add_geomark_url e in_fc))))) = []"
proof -
  have filled: "\<forall>j<length (rows (fc (final (add_geomark_url e in_fc)))).
            \<not> is_blank (GeomarkURL (rows (fc (final (add_geomark_url e in_fc))) ! j))"
    using assms(2,1) by (rule run_fills)
  then have "exchanges (final (add_geomark_url e' (fc (final (add_geomark_url e in_fc))))) = []"
    by (rule run_nothing_to_do)
  with filled show ?thesis by simp
qed

theorem second_run_sends_nothing_witness:
  "raises (add_geomark_url service_up two_points) = None \<and>
   exchanges (final (add_geomark_url service_up two_points)) \<noteq> [] \<and>
   exchanges (final (add_geomark_url service_up (fc (final (add_geomark_url service_up two_points))))) = []"
proof -
  have h1: "raises (add_geomark_url service_up two_points) = None"
    by (simp add: run_defs service_up_def two_points_def point_def gm_url_def post_url_def upt_rec)
  have h2: "\<forall>h q resp. session_post service_up h q = Responded resp \<longrightarrow> \<not> is_blank (Some (url resp))"
    by (auto simp: service_up_def is_blank_def gm_url_def)
  have h3: "exchanges (final (add_geomark_url service_up two_points)) \<noteq> []"
    by (simp add: run_defs service_up_def two_points_def point_def gm_url_def post_url_def upt_rec)
  show ?thesis using second_run_sends_nothing [OF h1 h2, of service_up] h1 h3 by blast
qed

end
